theory Spec2Isabelle
  imports Complex_Main
begin

section \<open>The override store (server.js)\<close>

subsection \<open>Data model\<close>

text \<open>
  One entry of the override log, with the fields server.js documents above
  \<^verbatim>\<open>readOverrides\<close>. The type of \<open>newValues\<close> is left open: the store never
  looks inside it. \<open>version\<close> is a JavaScript Number that the store only ever
  compares, maximises and increments by one; it is modelled as an unbounded integer.
  \<open>updatedAt\<close> is the ISO text of the clock at the time of the call, which the model
  takes as an argument.
\<close>

record 'v override =
  lat :: string
  lon :: string
  date :: string
  newValues :: 'v
  updatedAt :: string
  updatedBy :: string
  version :: int
  active :: bool

text \<open>
  The backing file \<^verbatim>\<open>data/overrides.json\<close>, classified by what
  \<^verbatim>\<open>fs.readFileSync\<close> followed by \<^verbatim>\<open>JSON.parse\<close> does with it:
  \<^item> \<open>Absent\<close>: there is no file, \<^verbatim>\<open>readFileSync\<close> throws;
  \<^item> \<open>Invalid raw\<close>: the file holds the text \<open>raw\<close>, which \<^verbatim>\<open>JSON.parse\<close>
    rejects with a SyntaxError (the empty file is \<open>Invalid []\<close>);
  \<^item> \<open>Stored l\<close>: the file holds the JSON array of the records \<open>l\<close>.
  A file holding valid JSON that is not an array of records is outside this model.
\<close>

datatype 'v overrides_file = Absent | Invalid string | Stored "'v override list"

subsection \<open>Reading and writing the log\<close>

definition readOverrides :: "'v overrides_file \<Rightarrow> 'v override list" where
  "readOverrides f = (case f of
     Absent \<Rightarrow> []
   | Invalid raw \<Rightarrow> []
   | Stored l \<Rightarrow> l)"

definition writeOverrides :: "'v override list \<Rightarrow> 'v overrides_file" where
  "writeOverrides l = Stored l"

subsection \<open>getLatestOverride\<close>

text \<open>
  \<^verbatim>\<open>candidates.reduce((a, b) => (a.version > b.version ? a : b))\<close> has no initial
  value: the accumulator starts as the first candidate and the callback runs on the
  others, left to right. The function never calls \<^verbatim>\<open>writeOverrides\<close>; the file is
  returned as it was read.
\<close>

definition getLatestOverride ::
  "'v overrides_file \<Rightarrow> string \<Rightarrow> string \<Rightarrow> string \<Rightarrow> 'v override option \<times> 'v overrides_file" where
  "getLatestOverride f la lo d =
     (let all = readOverrides f;
          candidates = filter (\<lambda>ov. active ov \<and> lat ov = la \<and> lon ov = lo \<and> date ov = d) all
      in case candidates of
           [] \<Rightarrow> (None, f)
         | c # cs \<Rightarrow> (Some (foldl (\<lambda>a b. if version a > version b then a else b) c cs), f))"

subsection \<open>addOverride\<close>

text \<open>
  The \<^verbatim>\<open>for (const o of all)\<close> loop: it walks the log once, carries
  \<open>maxVersion\<close> and clears \<open>active\<close> in place on every record of the key.
\<close>

fun addOverride_loop ::
  "string \<Rightarrow> string \<Rightarrow> string \<Rightarrow> 'v override list \<Rightarrow> int \<Rightarrow> 'v override list \<times> int" where
  "addOverride_loop la lo d [] maxVersion = ([], maxVersion)"
| "addOverride_loop la lo d (ov # rest) maxVersion =
     (if lat ov = la \<and> lon ov = lo \<and> date ov = d
      then (case addOverride_loop la lo d rest (max maxVersion (version ov)) of
              (rest', m) \<Rightarrow> (ov\<lparr>active := False\<rparr> # rest', m))
      else (case addOverride_loop la lo d rest maxVersion of
              (rest', m) \<Rightarrow> (ov # rest', m)))"

definition addOverride ::
  "'v overrides_file \<Rightarrow> string \<Rightarrow> string \<Rightarrow> string \<Rightarrow> 'v \<Rightarrow> string \<Rightarrow> 'v override \<times> 'v overrides_file" where
  "addOverride f la lo d vals now =
     (case addOverride_loop la lo d (readOverrides f) 0 of
        (all, maxVersion) \<Rightarrow>
          (let newOverride =
                 \<lparr>lat = la, lon = lo, date = d, newValues = vals, updatedAt = now,
                  updatedBy = ''anonymous'', version = maxVersion + 1, active = True\<rparr>
           in (newOverride, writeOverrides (all @ [newOverride]))))"

subsection \<open>removeOverride\<close>

text \<open>
  The loop clears \<open>active\<close> on every active record of the key and keeps in
  \<open>removed\<close> a reference to the last one it touched (the object as mutated, so with
  \<open>active = false\<close>). The file is written only when \<open>removed\<close> is not null.
\<close>

fun removeOverride_loop ::
  "string \<Rightarrow> string \<Rightarrow> string \<Rightarrow> 'v override list \<Rightarrow> 'v override option
     \<Rightarrow> 'v override list \<times> 'v override option" where
  "removeOverride_loop la lo d [] removed = ([], removed)"
| "removeOverride_loop la lo d (ov # rest) removed =
     (if active ov \<and> lat ov = la \<and> lon ov = lo \<and> date ov = d
      then (case removeOverride_loop la lo d rest (Some (ov\<lparr>active := False\<rparr>)) of
              (rest', r) \<Rightarrow> (ov\<lparr>active := False\<rparr> # rest', r))
      else (case removeOverride_loop la lo d rest removed of
              (rest', r) \<Rightarrow> (ov # rest', r)))"

definition removeOverride ::
  "'v overrides_file \<Rightarrow> string \<Rightarrow> string \<Rightarrow> string \<Rightarrow> 'v override option \<times> 'v overrides_file" where
  "removeOverride f la lo d =
     (case removeOverride_loop la lo d (readOverrides f) None of
        (all, removed) \<Rightarrow>
          (removed, if removed \<noteq> None then writeOverrides all else f))"

subsection \<open>A run of Create calls\<close>

text \<open>
  A sequence of \<^verbatim>\<open>addOverride\<close> calls, each given as
  \<open>(lat, lon, date, values, now)\<close>, run one after the other on the same file.
\<close>

fun creates ::
  "'v overrides_file \<Rightarrow> (string \<times> string \<times> string \<times> 'v \<times> string) list \<Rightarrow> 'v overrides_file" where
  "creates f [] = f"
| "creates f ((la, lo, d, vals, now) # calls) =
     creates (snd (addOverride f la lo d vals now)) calls"

section \<open>The HTTP boundary (server.js, the request handler)\<close>

text \<open>
  A field of a parsed JSON body. \<open>JUndefined\<close> is a property the body does not
  have. A Number is carried as \<open>JNum s\<close> where \<open>s\<close> is the text that JavaScript's
  Number-to-string conversion gives for it (so 17.385 is \<open>JNum ''17.385''\<close> and both
  zeros are \<open>JNum ''0''\<close>); JSON cannot carry NaN or an infinity. Arrays and objects
  in the place of a key field are outside this model.
\<close>

datatype jsval = JUndefined | JNull | JBool bool | JNum string | JStr string



text \<open>
  The destructured body \<^verbatim>\<open>{ lat, lon, date, values }\<close>. \<open>b_values\<close> is \<open>None\<close>
  when \<^verbatim>\<open>values\<close> is missing or falsy and \<open>Some v\<close> for a truthy value \<open>v\<close>. A
  request whose body \<^verbatim>\<open>JSON.parse\<close> rejects is \<open>None\<close> in the handlers below.
\<close>

record 'v body =
  b_lat :: jsval
  b_lon :: jsval
  b_date :: jsval
  b_values :: "'v option"






section \<open>The client (the browser script)\<close>

subsection \<open>Errors\<close>

text \<open>
  Every \<^verbatim>\<open>throw\<close> and every rejected promise of the client functions below is a
  value of this type; \<^verbatim>\<open>loadWeather\<close> catches them all and shows a status message.
\<close>

datatype error =
    NetworkFailure
  | FailedToFetchWeather
  | InvalidJson
  | NoWeatherDay
  | NoHourlyData
  | FailedToFetchOverride

subsection \<open>Numbers as text\<close>





subsection \<open>fetchOverride and the merge of loadWeather\<close>



subsection \<open>The weather snapshot and the hourly series\<close>

text \<open>
  The six icons of \<^verbatim>\<open>weatherCodeToIcon\<close>, which in the script are the emoji
  U+2600 (sun), U+26C5 (sun behind cloud), U+1F32B (fog), U+1F327 (cloud with rain),
  U+2744 (snowflake) and U+1F325 (sun behind large cloud).
\<close>

datatype icon = Sun | PartlyCloudy | Fog | Rain | Snow | Cloudy

fun weatherCodeToIcon :: "int \<Rightarrow> icon" where
  "weatherCodeToIcon code =
     (if code = 113 then Sun
      else if code \<in> set [116, 119, 122] then PartlyCloudy
      else if code \<in> set [143, 248, 260] then Fog
      else if code \<in> set [176, 200, 263, 266, 281, 284, 293, 296, 299, 302, 305, 308, 311, 314,
                            353, 356, 359, 386, 389] then Rain
      else if code \<in> set [179, 227, 230, 317, 320, 323, 326, 329, 332, 335, 338, 350, 368, 371,
                            374, 377, 392, 395] then Snow
      else Cloudy)"

text \<open>
  One entry of the provider's hourly series, after \<^verbatim>\<open>parseFloat\<close> and
  \<^verbatim>\<open>parseInt\<close>: the numbers are rationals (the script computes in binary floating
  point, which this model idealises as exact arithmetic), \<open>h_weatherDesc\<close> holds the
  \<open>value\<close> texts of \<^verbatim>\<open>weatherDesc\<close>, and a missing \<^verbatim>\<open>weatherCode\<close> is 0.
\<close>

record hourly =
  h_tempC :: rat
  h_humidity :: rat
  h_windspeedKmph :: rat
  h_precipMM :: rat
  h_weatherDesc :: "string list"
  h_weatherCode :: int

record snapshot =
  tempC :: rat
  humidityPct :: int
  windKph :: rat
  precipMm :: rat
  conditionText :: string
  conditionIcon :: icon
  source :: string

text \<open>
  \<^verbatim>\<open>parseFloat(x.toFixed(1))\<close>: the multiple of one tenth nearest to \<open>x\<close>, the one
  larger in magnitude on a tie. \<^verbatim>\<open>Math.round(x)\<close>: the nearest integer, the larger
  one on a tie.
\<close>

definition toFixed1 :: "rat \<Rightarrow> rat" where
  "toFixed1 x =
     (if x < 0 then - (of_int \<lfloor>(- x) * 10 + 1 / 2\<rfloor> / 10) else of_int \<lfloor>x * 10 + 1 / 2\<rfloor> / 10)"

definition Math_round :: "rat \<Rightarrow> int" where
  "Math_round x = \<lfloor>x + 1 / 2\<rfloor>"

text \<open>\<^verbatim>\<open>String.prototype.trim\<close>, for the white space of ASCII.\<close>

definition is_space :: "char \<Rightarrow> bool" where
  "is_space c = (c \<in> set [CHR '' '', CHR 0x09, CHR 0x0A, CHR 0x0B, CHR 0x0C, CHR 0x0D])"

definition trim :: "string \<Rightarrow> string" where
  "trim s = rev (dropWhile is_space (rev (dropWhile is_space s)))"

text \<open>
  Lines 125 to 162 of the script: the reduction of a non-empty hourly series to one
  snapshot. The four \<^verbatim>\<open>forEach\<close> accumulators start at 0 and add entry after entry.
\<close>

definition reduce_hourly :: "hourly list \<Rightarrow> snapshot" where
  "reduce_hourly hs =
     (let sumTemp = foldl (\<lambda>s e. s + h_tempC e) 0 hs;
          sumHumidity = foldl (\<lambda>s e. s + h_humidity e) 0 hs;
          sumWind = foldl (\<lambda>s e. s + h_windspeedKmph e) 0 hs;
          sumPrecip = foldl (\<lambda>s e. s + h_precipMM e) 0 hs;
          count = length hs;
          avgTemp = toFixed1 (sumTemp / of_nat count);
          avgHum = Math_round (sumHumidity / of_nat count);
          avgWind = toFixed1 (sumWind / of_nat count);
          totalPrecip = toFixed1 sumPrecip;
          midIndex = count div 2;
          condition = hs ! midIndex;
          conditionTextVal = (case h_weatherDesc condition of [] \<Rightarrow> [] | v # _ \<Rightarrow> trim v);
          conditionCodeVal = h_weatherCode condition
      in \<lparr>tempC = avgTemp, humidityPct = avgHum, windKph = avgWind, precipMm = totalPrecip,
          conditionText = conditionTextVal, conditionIcon = weatherCodeToIcon conditionCodeVal,
          source = ''api''\<rparr>)"

subsection \<open>The cache and fetchWeather\<close>

record cache_entry =
  data :: snapshot
  timestamp :: int

text \<open>
  The \<^verbatim>\<open>weatherCache\<close> item of localStorage: not set (or the empty string),
  a text \<^verbatim>\<open>JSON.parse\<close> rejects, or the JSON of an object from cache keys to
  entries. The script reads all three through
  \<^verbatim>\<open>JSON.parse(localStorage.getItem("weatherCache") || "{}")\<close> inside a
  \<^verbatim>\<open>try\<close> whose \<^verbatim>\<open>catch\<close> gives the empty object.
\<close>

datatype weatherCache = Unset | Garbled string | Cached "string \<rightharpoonup> cache_entry"

definition read_cache :: "weatherCache \<Rightarrow> (string \<rightharpoonup> cache_entry)" where
  "read_cache item = (case item of
     Unset \<Rightarrow> Map.empty
   | Garbled raw \<Rightarrow> Map.empty
   | Cached m \<Rightarrow> m)"

text \<open>
  What the provider answers to the one \<^verbatim>\<open>fetch(url)\<close> of a call: the promise
  rejects (\<open>Unreachable\<close>), or a response arrives with its \<open>ok\<close> flag and a body;
  the body is \<open>None\<close> when \<^verbatim>\<open>resp.json()\<close> rejects and otherwise the
  \<^verbatim>\<open>weather\<close> array (empty when the property is missing) of days, each with its
  date and its hourly series (empty when the property is missing).
\<close>

record weather_day =
  wd_date :: string
  wd_hourly :: "hourly list"

datatype upstream = Unreachable | Answer bool "weather_day list option"

text \<open>
  The browser as \<^verbatim>\<open>fetchWeather\<close> sees and changes it: the localStorage item and
  the number of requests sent to the provider so far.
\<close>

record browser =
  storage :: weatherCache
  fetches :: nat

text \<open>
  \<open>la\<close> and \<open>lo\<close> are \<^verbatim>\<open>locationData.lat\<close> and \<^verbatim>\<open>locationData.lon\<close> as the
  template literals print them, \<open>now\<close> is \<^verbatim>\<open>Date.now()\<close> in milliseconds, and
  \<open>up\<close> is what the provider would answer if asked during this call.
\<close>

definition cacheKey :: "string \<Rightarrow> string \<Rightarrow> string \<Rightarrow> string" where
  "cacheKey la lo dateString = la @ '','' @ lo @ '','' @ dateString"

text \<open>
  \<^verbatim>\<open>weatherArr.find((item) => item.date === dateString)\<close>, and the first day of the
  array when no day has the date. On an empty array the script reads a property of
  \<^verbatim>\<open>undefined\<close>, which throws: \<open>None\<close> here.
\<close>

definition pick_day :: "string \<Rightarrow> weather_day list \<Rightarrow> weather_day option" where
  "pick_day dateString weatherArr =
     (case find (\<lambda>item. wd_date item = dateString) weatherArr of
        Some day \<Rightarrow> Some day
      | None \<Rightarrow> (case weatherArr of [] \<Rightarrow> None | day # _ \<Rightarrow> Some day))"

text \<open>
  Lines 112 to 166: the request to the provider and what follows it, reached when the
  cache has no fresh entry under \<open>key\<close>. \<open>cache\<close> is the object parsed at the top of
  the call; it is changed and written back only in the last two statements.
\<close>

definition fetchWeather_upstream ::
  "browser \<Rightarrow> string \<Rightarrow> (string \<rightharpoonup> cache_entry) \<Rightarrow> int \<Rightarrow> upstream \<Rightarrow> string
     \<Rightarrow> (error + snapshot) \<times> browser" where
  "fetchWeather_upstream b key cache now up dateString =
     (let b1 = b\<lparr>fetches := fetches b + 1\<rparr> in
      case up of
        Unreachable \<Rightarrow> (Inl NetworkFailure, b1)
      | Answer ok body \<Rightarrow>
          if \<not> ok then (Inl FailedToFetchWeather, b1)
          else (case body of
                  None \<Rightarrow> (Inl InvalidJson, b1)
                | Some weatherArr \<Rightarrow>
                    (case pick_day dateString weatherArr of
                       None \<Rightarrow> (Inl NoWeatherDay, b1)
                     | Some weatherDay \<Rightarrow>
                         if length (wd_hourly weatherDay) = 0 then (Inl NoHourlyData, b1)
                         else
                           (let weather = reduce_hourly (wd_hourly weatherDay)
                            in (Inr weather,
                                b1\<lparr>storage :=
                                     Cached (cache(key \<mapsto> \<lparr>data = weather, timestamp = now\<rparr>))\<rparr>)))))"

definition fetchWeather ::
  "browser \<Rightarrow> string \<Rightarrow> string \<Rightarrow> int \<Rightarrow> upstream \<Rightarrow> string \<Rightarrow> (error + snapshot) \<times> browser" where
  "fetchWeather b la lo now up dateString =
     (let key = cacheKey la lo dateString;
          cache = read_cache (storage b)
      in case cache key of
           Some entry \<Rightarrow>
             if now - timestamp entry < 15 * 60 * 1000 then (Inr (data entry), b)
             else fetchWeather_upstream b key cache now up dateString
         | None \<Rightarrow> fetchWeather_upstream b key cache now up dateString)"

section \<open>Sample data\<close>




definition sample_snapshot :: snapshot where
  "sample_snapshot =
     \<lparr>tempC = 207 / 10, humidityPct = 41, windKph = 11, precipMm = 3 / 10,
      conditionText = ''Light rain'', conditionIcon = Rain, source = ''api''\<rparr>"



definition no_file :: "(string \<times> int) list overrides_file" where
  "no_file = Absent"

section \<open>Notation for the statements\<close>

abbreviation (input) same_key :: "string \<Rightarrow> string \<Rightarrow> string \<Rightarrow> 'v override \<Rightarrow> bool" where
  "same_key la lo d ov \<equiv> lat ov = la \<and> lon ov = lo \<and> date ov = d"

abbreviation (input) supersede :: "string \<Rightarrow> string \<Rightarrow> string \<Rightarrow> 'v override \<Rightarrow> 'v override" where
  "supersede la lo d ov \<equiv>
     (if lat ov = la \<and> lon ov = lo \<and> date ov = d then ov\<lparr>active := False\<rparr> else ov)"

abbreviation (input) deactivate :: "string \<Rightarrow> string \<Rightarrow> string \<Rightarrow> 'v override \<Rightarrow> 'v override" where
  "deactivate la lo d ov \<equiv>
     (if active ov \<and> lat ov = la \<and> lon ov = lo \<and> date ov = d then ov\<lparr>active := False\<rparr> else ov)"

abbreviation (input) for_key ::
  "string \<Rightarrow> string \<Rightarrow> string \<Rightarrow> string \<times> string \<times> string \<times> 'v \<times> string \<Rightarrow> bool" where
  "for_key la lo d call \<equiv> fst call = la \<and> fst (snd call) = lo \<and> fst (snd (snd call)) = d"

text \<open>
  The test at the top of \<^verbatim>\<open>fetchWeather\<close>: the cache holds an entry under the
  key that is less than fifteen minutes old.
\<close>

abbreviation (input) fresh :: "browser \<Rightarrow> string \<Rightarrow> int \<Rightarrow> bool" where
  "fresh b key now \<equiv>
     (case read_cache (storage b) key of
        None \<Rightarrow> False
      | Some entry \<Rightarrow> now - timestamp entry < 15 * 60 * 1000)"

section \<open>Properties of the override store\<close>

subsection \<open>addOverride\<close>

lemma addOverride_loop_fst:
  "fst (addOverride_loop la lo d l m) =
     map (\<lambda>ov. if lat ov = la \<and> lon ov = lo \<and> date ov = d then ov\<lparr>active := False\<rparr> else ov) l"
  by (induction l arbitrary: m) (simp_all add: case_prod_beta)

lemma Max_insert_max:
  "finite S \<Longrightarrow> Max (insert (max a b) S) = Max (insert a (insert b S))"
  for a b :: int
  by (cases "S = {}") (auto simp: max.assoc)

lemma addOverride_loop_snd:
  "snd (addOverride_loop la lo d l m) =
     Max (insert m (version ` {ov \<in> set l. lat ov = la \<and> lon ov = lo \<and> date ov = d}))"
proof (induction l arbitrary: m)
  case Nil
  show ?case by simp
next
  case (Cons ov rest)
  let ?S = "version ` {x \<in> set rest. lat x = la \<and> lon x = lo \<and> date x = d}"
  have fin: "finite ?S" by simp
  show ?case
  proof (cases "lat ov = la \<and> lon ov = lo \<and> date ov = d")
    case True
    then have "{x \<in> set (ov # rest). lat x = la \<and> lon x = lo \<and> date x = d}
        = insert ov {x \<in> set rest. lat x = la \<and> lon x = lo \<and> date x = d}" by auto
    then have "version ` {x \<in> set (ov # rest). lat x = la \<and> lon x = lo \<and> date x = d}
        = insert (version ov) ?S" by simp
    moreover have "snd (addOverride_loop la lo d (ov # rest) m) = Max (insert (max m (version ov)) ?S)"
      using True Cons.IH [of "max m (version ov)"] by (simp add: case_prod_beta)
    ultimately show ?thesis using Max_insert_max [OF fin] by simp
  next
    case False
    then have "{x \<in> set (ov # rest). lat x = la \<and> lon x = lo \<and> date x = d}
        = {x \<in> set rest. lat x = la \<and> lon x = lo \<and> date x = d}" by auto
    moreover have "snd (addOverride_loop la lo d (ov # rest) m) = Max (insert m ?S)"
      using False Cons.IH [of m] by (auto simp add: case_prod_beta)
    ultimately show ?thesis by simp
  qed
qed

lemma readOverrides_addOverride:
  "readOverrides (snd (addOverride f la lo d vals now)) =
     map (\<lambda>ov. if lat ov = la \<and> lon ov = lo \<and> date ov = d then ov\<lparr>active := False\<rparr> else ov)
       (readOverrides f) @ [fst (addOverride f la lo d vals now)]"
  using addOverride_loop_fst [of la lo d "readOverrides f" 0]
  by (simp add: addOverride_def writeOverrides_def Let_def case_prod_beta readOverrides_def)

lemma fst_addOverride:
  "fst (addOverride f la lo d vals now) =
     \<lparr>lat = la, lon = lo, date = d, newValues = vals, updatedAt = now, updatedBy = ''anonymous'',
      version = Max (insert 0 (version ` {ov \<in> set (readOverrides f). lat ov = la \<and> lon ov = lo \<and> date ov = d})) + 1,
      active = True\<rparr>"
  using addOverride_loop_snd [of la lo d "readOverrides f" 0]
  by (simp add: addOverride_def Let_def case_prod_beta)


lemma versions_supersede:
  "version ` {ov \<in> set (map (supersede la' lo' d') l). same_key la lo d ov}
     = version ` {ov \<in> set l. same_key la lo d ov}"
proof -
  have "{ov \<in> set (map (supersede la' lo' d') l). same_key la lo d ov}
      = supersede la' lo' d' ` {ov \<in> set l. same_key la lo d ov}"
    by (auto simp: image_iff)
  moreover have "version (supersede la' lo' d' ov) = version ov" for ov :: "'a override"
    by simp
  ultimately show ?thesis
    by (simp only: image_image)
qed

lemma active_supersede_same:
  "filter (\<lambda>ov. active ov \<and> same_key la lo d ov) (map (supersede la lo d) l) = []"
  by (induction l) auto

lemma active_supersede_other:
  "\<not> (la' = la \<and> lo' = lo \<and> d' = d) \<Longrightarrow>
   filter (\<lambda>ov. active ov \<and> same_key la lo d ov) (map (supersede la' lo' d') l)
     = filter (\<lambda>ov. active ov \<and> same_key la lo d ov) l"
  by (induction l) auto

lemma creates_snoc:
  "creates f (calls @ [(la, lo, d, vals, now)]) = snd (addOverride (creates f calls) la lo d vals now)"
  by (induction f calls rule: creates.induct) auto

lemma Max_insert_succ:
  "finite S \<Longrightarrow> Max (insert 0 S) = n \<Longrightarrow> Max (insert 0 (insert (n + 1) S)) = n + 1" for n :: int
  by (metis Max_insert Max_singleton insert_commute insert_not_empty finite_insert max.absorb1 zle_add1_eq_le less_le_not_le linorder_le_cases zless_add1_eq)

lemma creates_invariant:
  assumes empty: "readOverrides f = []"
  shows "Max (insert 0 (version ` {ov \<in> set (readOverrides (creates f calls)). same_key la lo d ov}))
           = int (length (filter (for_key la lo d) calls))
       \<and> filter (\<lambda>ov. active ov \<and> same_key la lo d ov) (readOverrides (creates f calls))
           = (if filter (for_key la lo d) calls = [] then []
              else [\<lparr>lat = la, lon = lo, date = d,
                      newValues = fst (snd (snd (snd (last (filter (for_key la lo d) calls))))),
                      updatedAt = snd (snd (snd (snd (last (filter (for_key la lo d) calls))))),
                      updatedBy = ''anonymous'',
                      version = int (length (filter (for_key la lo d) calls)),
                      active = True\<rparr>])"
proof (induction calls rule: rev_induct)
  case Nil
  show ?case using empty by simp
next
  case (snoc c calls)
  obtain la' lo' d' vals now where c: "c = (la', lo', d', vals, now)"
    by (cases c) auto
  let ?L = "readOverrides (creates f calls)"
  let ?r = "fst (addOverride (creates f calls) la' lo' d' vals now)"
  have L': "readOverrides (creates f (calls @ [c])) = map (supersede la' lo' d') ?L @ [?r]"
    unfolding c creates_snoc by (rule readOverrides_addOverride)
  have r: "?r = \<lparr>lat = la', lon = lo', date = d', newValues = vals, updatedAt = now,
      updatedBy = ''anonymous'',
      version = Max (insert 0 (version ` {ov \<in> set ?L. same_key la' lo' d' ov})) + 1,
      active = True\<rparr>"
    by (rule fst_addOverride)
  show ?case
  proof (cases "la' = la \<and> lo' = lo \<and> d' = d")
    case True
    have key_r: "same_key la lo d ?r" and act_r: "active ?r" using True r by simp_all
    have vr: "version ?r = int (length (filter (for_key la lo d) calls)) + 1"
      using snoc.IH True r by simp
    have "{ov \<in> set (map (supersede la' lo' d') ?L @ [?r]). same_key la lo d ov}
        = insert ?r {ov \<in> set (map (supersede la' lo' d') ?L). same_key la lo d ov}"
      using key_r by auto
    then have "version ` {ov \<in> set (map (supersede la' lo' d') ?L @ [?r]). same_key la lo d ov}
        = insert (version ?r) (version ` {ov \<in> set ?L. same_key la lo d ov})"
      using versions_supersede [where l = ?L and la = la and lo = lo and d = d and la' = la' and lo' = lo' and d' = d'] by simp
    then have A: "Max (insert 0 (version ` {ov \<in> set (readOverrides (creates f (calls @ [c]))). same_key la lo d ov}))
        = int (length (filter (for_key la lo d) calls)) + 1"
      using Max_insert_succ [of "version ` {ov \<in> set ?L. same_key la lo d ov}"] snoc.IH vr L'
      by simp
    have B: "filter (\<lambda>ov. active ov \<and> same_key la lo d ov) (readOverrides (creates f (calls @ [c]))) = [?r]"
      using active_supersede_same [of la lo d ?L] True key_r act_r L' by simp
    show ?thesis using A B True c r vr by simp
  next
    case False
    have not_r: "\<not> same_key la lo d ?r" using False r by auto
    have "{ov \<in> set (map (supersede la' lo' d') ?L @ [?r]). same_key la lo d ov}
        = {ov \<in> set (map (supersede la' lo' d') ?L). same_key la lo d ov}"
      using not_r by auto
    then have A: "version ` {ov \<in> set (readOverrides (creates f (calls @ [c]))). same_key la lo d ov}
        = version ` {ov \<in> set ?L. same_key la lo d ov}"
      using versions_supersede [where l = ?L and la = la and lo = lo and d = d and la' = la' and lo' = lo' and d' = d'] L' by simp
    have B: "filter (\<lambda>ov. active ov \<and> same_key la lo d ov) (readOverrides (creates f (calls @ [c])))
        = filter (\<lambda>ov. active ov \<and> same_key la lo d ov) ?L"
      using active_supersede_other [OF False, where l = ?L] not_r L' by simp
    have C: "filter (for_key la lo d) (calls @ [c])
        = filter (for_key la lo d) calls"
      using False c by auto
    show ?thesis unfolding A B C using snoc.IH by simp
  qed
qed


text \<open>
  Claim C1. For every key and every log, \<open>addOverride\<close> clears \<open>active\<close> on every
  record of the key that the log holds, active or not, leaves the other records as
  they are, appends exactly one record, which is active, carries the key and the given
  values, and is the record returned. Hence, when a run of \<open>addOverride\<close> calls on any
  keys starts from an empty log and \<open>N \<ge> 1\<close> of the calls are for a key, exactly one
  record of that key is active after the run and its version is \<open>N\<close>.
\<close>

theorem addOverride_supersedes_and_appends:
  "readOverrides (snd (addOverride f la lo d vals now))
     = map (supersede la lo d) (readOverrides f) @ [fst (addOverride f la lo d vals now)]
   \<and> active (fst (addOverride f la lo d vals now))
   \<and> newValues (fst (addOverride f la lo d vals now)) = vals
   \<and> same_key la lo d (fst (addOverride f la lo d vals now))
   \<and> (readOverrides f0 = [] \<and> filter (for_key la lo d) calls \<noteq> [] \<longrightarrow>
        (\<exists>r. filter (\<lambda>ov. active ov \<and> same_key la lo d ov) (readOverrides (creates f0 calls)) = [r]
             \<and> version r = int (length (filter (for_key la lo d) calls))))"
proof -
  have "readOverrides (snd (addOverride f la lo d vals now))
     = map (supersede la lo d) (readOverrides f) @ [fst (addOverride f la lo d vals now)]"
    by (rule readOverrides_addOverride)
  moreover have "active (fst (addOverride f la lo d vals now))"
    and "newValues (fst (addOverride f la lo d vals now)) = vals"
    and "same_key la lo d (fst (addOverride f la lo d vals now))"
    by (simp_all add: fst_addOverride)
  moreover have "\<exists>r. filter (\<lambda>ov. active ov \<and> same_key la lo d ov) (readOverrides (creates f0 calls)) = [r]
             \<and> version r = int (length (filter (for_key la lo d) calls))"
    if "readOverrides f0 = []" and "filter (for_key la lo d) calls \<noteq> []"
    using creates_invariant [OF that(1), where la = la and lo = lo and d = d and calls = calls] that(2) by simp
  ultimately show ?thesis by blast
qed

theorem addOverride_supersedes_and_appends_witness:
  "readOverrides
     (snd (addOverride
        (Stored [\<lparr>lat = ''17.385'', lon = ''78.4867'', date = ''2024-01-01'', newValues = [(''tempC'', 28 :: int)],
                  updatedAt = ''t1'', updatedBy = ''anonymous'', version = 1, active = True\<rparr>,
                 \<lparr>lat = ''0'', lon = ''0'', date = ''2024-01-01'', newValues = [],
                  updatedAt = ''t2'', updatedBy = ''anonymous'', version = 1, active = True\<rparr>])
        ''17.385'' ''78.4867'' ''2024-01-01'' [(''tempC'', 30)] ''t3''))
   = [\<lparr>lat = ''17.385'', lon = ''78.4867'', date = ''2024-01-01'', newValues = [(''tempC'', 28)],
       updatedAt = ''t1'', updatedBy = ''anonymous'', version = 1, active = False\<rparr>,
      \<lparr>lat = ''0'', lon = ''0'', date = ''2024-01-01'', newValues = [],
       updatedAt = ''t2'', updatedBy = ''anonymous'', version = 1, active = True\<rparr>,
      \<lparr>lat = ''17.385'', lon = ''78.4867'', date = ''2024-01-01'', newValues = [(''tempC'', 30)],
       updatedAt = ''t3'', updatedBy = ''anonymous'', version = 2, active = True\<rparr>]
   \<and> readOverrides (Absent :: (string \<times> int) list overrides_file) = []
   \<and> filter (for_key ''17.385'' ''78.4867'' ''2024-01-01'')
        [(''17.385'', ''78.4867'', ''2024-01-01'', [(''tempC'', 28 :: int)], ''t1''),
         (''0'', ''0'', ''2024-01-01'', [], ''t2''),
         (''17.385'', ''78.4867'', ''2024-01-01'', [(''tempC'', 30)], ''t3'')] \<noteq> []
   \<and> (\<exists>r. filter (\<lambda>ov. active ov \<and> same_key ''17.385'' ''78.4867'' ''2024-01-01'' ov)
             (readOverrides (creates Absent
                [(''17.385'', ''78.4867'', ''2024-01-01'', [(''tempC'', 28 :: int)], ''t1''),
                 (''0'', ''0'', ''2024-01-01'', [], ''t2''),
                 (''17.385'', ''78.4867'', ''2024-01-01'', [(''tempC'', 30)], ''t3'')])) = [r]
          \<and> version r = 2)"
  using addOverride_supersedes_and_appends
    [of "Stored [\<lparr>lat = ''17.385'', lon = ''78.4867'', date = ''2024-01-01'', newValues = [(''tempC'', 28 :: int)],
                  updatedAt = ''t1'', updatedBy = ''anonymous'', version = 1, active = True\<rparr>,
                 \<lparr>lat = ''0'', lon = ''0'', date = ''2024-01-01'', newValues = [],
                  updatedAt = ''t2'', updatedBy = ''anonymous'', version = 1, active = True\<rparr>]"
        "''17.385''" "''78.4867''" "''2024-01-01''" "[(''tempC'', 30)]" "''t3''"
        Absent
        "[(''17.385'', ''78.4867'', ''2024-01-01'', [(''tempC'', 28 :: int)], ''t1''),
          (''0'', ''0'', ''2024-01-01'', [], ''t2''),
          (''17.385'', ''78.4867'', ''2024-01-01'', [(''tempC'', 30)], ''t3'')]"]
  by (simp add: readOverrides_def addOverride_def writeOverrides_def Let_def)

subsection \<open>removeOverride\<close>

lemma removeOverride_loop_fst:
  "fst (removeOverride_loop la lo d l r0) = map (deactivate la lo d) l"
  by (induction l arbitrary: r0) (simp_all add: case_prod_beta)

lemma removeOverride_loop_snd:
  "snd (removeOverride_loop la lo d l r0) =
     (if filter (\<lambda>ov. active ov \<and> same_key la lo d ov) l = [] then r0
      else Some ((last (filter (\<lambda>ov. active ov \<and> same_key la lo d ov) l))\<lparr>active := False\<rparr>))"
  by (induction l arbitrary: r0) (simp_all add: case_prod_beta)

lemma deactivate_none:
  "filter (\<lambda>ov. active ov \<and> same_key la lo d ov) l = [] \<Longrightarrow> map (deactivate la lo d) l = l"
  by (induction l) (auto split: if_splits)

lemma fst_removeOverride:
  "fst (removeOverride f la lo d) =
     (if filter (\<lambda>ov. active ov \<and> same_key la lo d ov) (readOverrides f) = [] then None
      else Some ((last (filter (\<lambda>ov. active ov \<and> same_key la lo d ov) (readOverrides f)))\<lparr>active := False\<rparr>))"
  by (simp add: removeOverride_def case_prod_beta removeOverride_loop_snd)

lemma snd_removeOverride:
  "snd (removeOverride f la lo d) =
     (if filter (\<lambda>ov. active ov \<and> same_key la lo d ov) (readOverrides f) = [] then f
      else Stored (map (deactivate la lo d) (readOverrides f)))"
  by (simp add: removeOverride_def case_prod_beta removeOverride_loop_snd removeOverride_loop_fst
      writeOverrides_def)

lemma readOverrides_removeOverride:
  "readOverrides (snd (removeOverride f la lo d)) = map (deactivate la lo d) (readOverrides f)"
  by (simp add: snd_removeOverride deactivate_none) (simp add: readOverrides_def)

lemma active_deactivate:
  "filter (\<lambda>ov. active ov \<and> same_key la lo d ov) (map (deactivate la lo d) l) = []"
  by (induction l) auto

text \<open>
  Claim C4. For every key and every log, \<open>removeOverride\<close> clears \<open>active\<close> on every
  active record of the key and changes nothing else: the log keeps its length (no
  record is appended) and every record keeps its version. When some record of the key
  was active, the result is one of those records, deactivated, as the log now holds
  it. When none was active, the call returns absent and leaves the file as it was.
\<close>

theorem removeOverride_deactivates:
  "readOverrides (snd (removeOverride f la lo d)) = map (deactivate la lo d) (readOverrides f)
   \<and> length (readOverrides (snd (removeOverride f la lo d))) = length (readOverrides f)
   \<and> map version (readOverrides (snd (removeOverride f la lo d))) = map version (readOverrides f)
   \<and> filter (\<lambda>ov. active ov \<and> same_key la lo d ov) (readOverrides (snd (removeOverride f la lo d))) = []
   \<and> (filter (\<lambda>ov. active ov \<and> same_key la lo d ov) (readOverrides f) \<noteq> [] \<longrightarrow>
        (\<exists>ov \<in> set (readOverrides f). active ov \<and> same_key la lo d ov
           \<and> fst (removeOverride f la lo d) = Some (ov\<lparr>active := False\<rparr>)
           \<and> ov\<lparr>active := False\<rparr> \<in> set (readOverrides (snd (removeOverride f la lo d)))))
   \<and> (filter (\<lambda>ov. active ov \<and> same_key la lo d ov) (readOverrides f) = [] \<longrightarrow>
        removeOverride f la lo d = (None, f))"
proof -
  let ?P = "\<lambda>ov. active ov \<and> same_key la lo d ov"
  let ?L = "readOverrides f"
  have A: "readOverrides (snd (removeOverride f la lo d)) = map (deactivate la lo d) ?L"
    by (rule readOverrides_removeOverride)
  have B: "map version (map (deactivate la lo d) ?L) = map version ?L"
    by (induction ?L) auto
  have C: "filter ?P (map (deactivate la lo d) ?L) = []"
    by (rule active_deactivate)
  have D: "\<exists>ov \<in> set ?L. ?P ov \<and> fst (removeOverride f la lo d) = Some (ov\<lparr>active := False\<rparr>)
      \<and> ov\<lparr>active := False\<rparr> \<in> set (readOverrides (snd (removeOverride f la lo d)))"
    if ne: "filter ?P ?L \<noteq> []"
  proof -
    let ?x = "last (filter ?P ?L)"
    have "?x \<in> set (filter ?P ?L)" using ne by (rule last_in_set)
    then have x: "?x \<in> set ?L" "?P ?x" by auto
    moreover have "fst (removeOverride f la lo d) = Some (?x\<lparr>active := False\<rparr>)"
      using ne by (simp add: fst_removeOverride)
    moreover have "deactivate la lo d ?x \<in> set (map (deactivate la lo d) ?L)"
      using x(1) by (simp only: set_map) (rule imageI)
    then have "?x\<lparr>active := False\<rparr> \<in> set (readOverrides (snd (removeOverride f la lo d)))"
      using x(2) A by simp
    ultimately show ?thesis by blast
  qed
  have E: "removeOverride f la lo d = (None, f)" if "filter ?P ?L = []"
    using that fst_removeOverride [of f la lo d] snd_removeOverride [of f la lo d]
    by (simp add: prod_eq_iff)
  show ?thesis using A B C D E by simp
qed


theorem removeOverride_deactivates_witness:
  "filter (\<lambda>ov. active ov \<and> same_key ''17.385'' ''78.4867'' ''2024-01-01'' ov)
     (readOverrides (Stored
        [\<lparr>lat = ''17.385'', lon = ''78.4867'', date = ''2024-01-01'', newValues = [(''tempC'', 28 :: int)],
          updatedAt = ''t1'', updatedBy = ''anonymous'', version = 1, active = True\<rparr>,
         \<lparr>lat = ''0'', lon = ''0'', date = ''2024-01-01'', newValues = [],
          updatedAt = ''t2'', updatedBy = ''anonymous'', version = 1, active = True\<rparr>])) \<noteq> []
   \<and> removeOverride (Stored
        [\<lparr>lat = ''17.385'', lon = ''78.4867'', date = ''2024-01-01'', newValues = [(''tempC'', 28 :: int)],
          updatedAt = ''t1'', updatedBy = ''anonymous'', version = 1, active = True\<rparr>,
         \<lparr>lat = ''0'', lon = ''0'', date = ''2024-01-01'', newValues = [],
          updatedAt = ''t2'', updatedBy = ''anonymous'', version = 1, active = True\<rparr>])
        ''17.385'' ''78.4867'' ''2024-01-01''
     = (Some \<lparr>lat = ''17.385'', lon = ''78.4867'', date = ''2024-01-01'', newValues = [(''tempC'', 28)],
          updatedAt = ''t1'', updatedBy = ''anonymous'', version = 1, active = False\<rparr>,
        Stored
        [\<lparr>lat = ''17.385'', lon = ''78.4867'', date = ''2024-01-01'', newValues = [(''tempC'', 28)],
          updatedAt = ''t1'', updatedBy = ''anonymous'', version = 1, active = False\<rparr>,
         \<lparr>lat = ''0'', lon = ''0'', date = ''2024-01-01'', newValues = [],
          updatedAt = ''t2'', updatedBy = ''anonymous'', version = 1, active = True\<rparr>])
   \<and> filter (\<lambda>ov. active ov \<and> same_key ''17.385'' ''78.4867'' ''2024-01-01'' ov)
        (readOverrides (Invalid ''{'' :: (string \<times> int) list overrides_file)) = []
   \<and> removeOverride (Invalid ''{'' :: (string \<times> int) list overrides_file)
        ''17.385'' ''78.4867'' ''2024-01-01'' = (None, Invalid ''{'')"
  using removeOverride_deactivates
    [of "Stored
        [\<lparr>lat = ''17.385'', lon = ''78.4867'', date = ''2024-01-01'', newValues = [(''tempC'', 28 :: int)],
          updatedAt = ''t1'', updatedBy = ''anonymous'', version = 1, active = True\<rparr>,
         \<lparr>lat = ''0'', lon = ''0'', date = ''2024-01-01'', newValues = [],
          updatedAt = ''t2'', updatedBy = ''anonymous'', version = 1, active = True\<rparr>]"
        "''17.385''" "''78.4867''" "''2024-01-01''"]
    removeOverride_deactivates
    [of "Invalid ''{'' :: (string \<times> int) list overrides_file" "''17.385''" "''78.4867''" "''2024-01-01''"]
  by (simp add: readOverrides_def removeOverride_def writeOverrides_def)

subsection \<open>getLatestOverride\<close>

lemma reduce_highest:
  "foldl (\<lambda>a b. if version a > version b then a else b) c cs \<in> set (c # cs)
   \<and> (\<forall>x \<in> set (c # cs). version x \<le> version (foldl (\<lambda>a b. if version a > version b then a else b) c cs))"
proof (induction cs arbitrary: c)
  case Nil
  show ?case by simp
next
  case (Cons b cs)
  show ?case
  proof (cases "version c > version b")
    case True
    then show ?thesis using Cons.IH [of c] by auto
  next
    case False
    then show ?thesis using Cons.IH [of b] by auto
  qed
qed

text \<open>
  Claim C3. For every key and every log, also one with several active records for
  the key, \<open>getLatestOverride\<close> leaves the file as it is, returns absent exactly when
  the log has no active record for the key, and otherwise returns an active record of
  the key from the log whose version is at least the version of every active record
  of the key.
\<close>

theorem getLatestOverride_highest_active:
  "snd (getLatestOverride f la lo d) = f
   \<and> (fst (getLatestOverride f la lo d) = None)
       = (filter (\<lambda>ov. active ov \<and> same_key la lo d ov) (readOverrides f) = [])
   \<and> (\<forall>r. fst (getLatestOverride f la lo d) = Some r \<longrightarrow>
        r \<in> set (readOverrides f) \<and> active r \<and> same_key la lo d r
        \<and> (\<forall>c \<in> set (readOverrides f). active c \<and> same_key la lo d c \<longrightarrow> version c \<le> version r))"
proof (cases "filter (\<lambda>ov. active ov \<and> same_key la lo d ov) (readOverrides f)")
  case Nil
  then show ?thesis by (simp add: getLatestOverride_def)
next
  case (Cons c cs)
  let ?r = "foldl (\<lambda>a b. if version a > version b then a else b) c cs"
  have res: "getLatestOverride f la lo d = (Some ?r, f)"
    using Cons by (simp add: getLatestOverride_def)
  have mem: "?r \<in> set (filter (\<lambda>ov. active ov \<and> same_key la lo d ov) (readOverrides f))"
    and top: "\<forall>x \<in> set (filter (\<lambda>ov. active ov \<and> same_key la lo d ov) (readOverrides f)).
                version x \<le> version ?r"
    using reduce_highest [of c cs] Cons by simp_all
  from mem have "?r \<in> set (readOverrides f)" "active ?r" "same_key la lo d ?r" by auto
  moreover from top have "\<forall>c \<in> set (readOverrides f). active c \<and> same_key la lo d c \<longrightarrow> version c \<le> version ?r"
    by auto
  ultimately show ?thesis using res Cons by simp
qed

theorem getLatestOverride_highest_active_witness:
  "fst (getLatestOverride (Stored
        [\<lparr>lat = ''17.385'', lon = ''78.4867'', date = ''2024-01-01'', newValues = [(''tempC'', 28 :: int)],
          updatedAt = ''t1'', updatedBy = ''anonymous'', version = 5, active = True\<rparr>,
         \<lparr>lat = ''17.385'', lon = ''78.4867'', date = ''2024-01-01'', newValues = [(''tempC'', 29)],
          updatedAt = ''t2'', updatedBy = ''anonymous'', version = 3, active = True\<rparr>,
         \<lparr>lat = ''17.385'', lon = ''78.4867'', date = ''2024-01-01'', newValues = [(''tempC'', 30)],
          updatedAt = ''t3'', updatedBy = ''anonymous'', version = 7, active = False\<rparr>])
        ''17.385'' ''78.4867'' ''2024-01-01'')
     = Some \<lparr>lat = ''17.385'', lon = ''78.4867'', date = ''2024-01-01'', newValues = [(''tempC'', 28)],
          updatedAt = ''t1'', updatedBy = ''anonymous'', version = 5, active = True\<rparr>
   \<and> filter (\<lambda>ov. active ov \<and> same_key ''17.385'' ''78.4867'' ''2024-01-01'' ov)
        (readOverrides (Stored
        [\<lparr>lat = ''17.385'', lon = ''78.4867'', date = ''2024-01-01'', newValues = [(''tempC'', 28 :: int)],
          updatedAt = ''t1'', updatedBy = ''anonymous'', version = 5, active = True\<rparr>,
         \<lparr>lat = ''17.385'', lon = ''78.4867'', date = ''2024-01-01'', newValues = [(''tempC'', 29)],
          updatedAt = ''t2'', updatedBy = ''anonymous'', version = 3, active = True\<rparr>,
         \<lparr>lat = ''17.385'', lon = ''78.4867'', date = ''2024-01-01'', newValues = [(''tempC'', 30)],
          updatedAt = ''t3'', updatedBy = ''anonymous'', version = 7, active = False\<rparr>]))
       = [\<lparr>lat = ''17.385'', lon = ''78.4867'', date = ''2024-01-01'', newValues = [(''tempC'', 28)],
          updatedAt = ''t1'', updatedBy = ''anonymous'', version = 5, active = True\<rparr>,
         \<lparr>lat = ''17.385'', lon = ''78.4867'', date = ''2024-01-01'', newValues = [(''tempC'', 29)],
          updatedAt = ''t2'', updatedBy = ''anonymous'', version = 3, active = True\<rparr>]"
  using getLatestOverride_highest_active
    [of "Stored
        [\<lparr>lat = ''17.385'', lon = ''78.4867'', date = ''2024-01-01'', newValues = [(''tempC'', 28 :: int)],
          updatedAt = ''t1'', updatedBy = ''anonymous'', version = 5, active = True\<rparr>,
         \<lparr>lat = ''17.385'', lon = ''78.4867'', date = ''2024-01-01'', newValues = [(''tempC'', 29)],
          updatedAt = ''t2'', updatedBy = ''anonymous'', version = 3, active = True\<rparr>,
         \<lparr>lat = ''17.385'', lon = ''78.4867'', date = ''2024-01-01'', newValues = [(''tempC'', 30)],
          updatedAt = ''t3'', updatedBy = ''anonymous'', version = 7, active = False\<rparr>]"
        "''17.385''" "''78.4867''" "''2024-01-01''"]
  by (simp add: getLatestOverride_def readOverrides_def)

subsection \<open>Versions\<close>








subsection \<open>An absent or unparsable file\<close>

text \<open>
  Claim C9. An absent file and a file whose text is not valid JSON (the empty file is
  one) both read as the empty log. On such a file \<open>getLatestOverride\<close> returns
  absent, \<open>addOverride\<close> creates version 1 and writes a log of that one record, and
  \<open>removeOverride\<close> returns absent and writes nothing: the same results as on a file
  that holds the empty array.
\<close>

theorem readOverrides_tolerates_bad_file:
  "readOverrides (Absent :: 'v overrides_file) = []
   \<and> readOverrides (Invalid raw :: 'v overrides_file) = []
   \<and> (f = Absent \<or> f = Invalid raw \<longrightarrow>
        getLatestOverride f la lo d = (None, f)
        \<and> fst (getLatestOverride f la lo d) = fst (getLatestOverride (Stored []) la lo d)
        \<and> addOverride f la lo d vals now = addOverride (Stored []) la lo d vals now
        \<and> addOverride f la lo d vals now
            = (\<lparr>lat = la, lon = lo, date = d, newValues = vals, updatedAt = now,
                updatedBy = ''anonymous'', version = 1, active = True\<rparr>,
               Stored [\<lparr>lat = la, lon = lo, date = d, newValues = vals, updatedAt = now,
                        updatedBy = ''anonymous'', version = 1, active = True\<rparr>])
        \<and> removeOverride f la lo d = (None, f)
        \<and> fst (removeOverride f la lo d) = fst (removeOverride (Stored []) la lo d)
        \<and> readOverrides (snd (removeOverride f la lo d))
            = readOverrides (snd (removeOverride (Stored []) la lo d)))"
  by (auto simp: readOverrides_def getLatestOverride_def addOverride_def removeOverride_def
      writeOverrides_def Let_def)

theorem readOverrides_tolerates_bad_file_witness:
  "readOverrides (Invalid [] :: (string \<times> int) list overrides_file) = []
   \<and> getLatestOverride (Invalid [] :: (string \<times> int) list overrides_file)
        ''17.385'' ''78.4867'' ''2024-01-01'' = (None, Invalid [])
   \<and> addOverride (Invalid []) ''17.385'' ''78.4867'' ''2024-01-01'' [(''tempC'', 28 :: int)] ''t1''
       = (\<lparr>lat = ''17.385'', lon = ''78.4867'', date = ''2024-01-01'', newValues = [(''tempC'', 28)],
           updatedAt = ''t1'', updatedBy = ''anonymous'', version = 1, active = True\<rparr>,
          Stored [\<lparr>lat = ''17.385'', lon = ''78.4867'', date = ''2024-01-01'', newValues = [(''tempC'', 28)],
           updatedAt = ''t1'', updatedBy = ''anonymous'', version = 1, active = True\<rparr>])
   \<and> removeOverride (Invalid [] :: (string \<times> int) list overrides_file)
        ''17.385'' ''78.4867'' ''2024-01-01'' = (None, Invalid [])
   \<and> removeOverride no_file ''17.385'' ''78.4867'' ''2024-01-01'' = (None, no_file)
   \<and> fst (addOverride no_file ''17.385'' ''78.4867'' ''2024-01-01'' [(''tempC'', 28)] ''t1'')
       = fst (addOverride (Stored []) ''17.385'' ''78.4867'' ''2024-01-01'' [(''tempC'', 28)] ''t1'')"
  using
    readOverrides_tolerates_bad_file
      [of "[]" "Invalid [] :: (string \<times> int) list overrides_file"
          "''17.385''" "''78.4867''" "''2024-01-01''" "[(''tempC'', 28)]" "''t1''"]
    readOverrides_tolerates_bad_file
      [of "[]" no_file "''17.385''" "''78.4867''" "''2024-01-01''" "[(''tempC'', 28)]" "''t1''"]
  by (simp add: no_file_def readOverrides_def getLatestOverride_def addOverride_def
      removeOverride_def writeOverrides_def Let_def)

section \<open>Properties of the HTTP boundary\<close>





section \<open>Properties of the merge\<close>



section \<open>Properties of the cache\<close>


lemma fetchWeather_miss:
  "\<not> fresh b (cacheKey la lo ds) now \<Longrightarrow>
   fetchWeather b la lo now up ds
     = fetchWeather_upstream b (cacheKey la lo ds) (read_cache (storage b)) now up ds"
  by (simp add: fetchWeather_def split: option.splits)



lemma upstream_Inl:
  "fst (fetchWeather_upstream b key cache now up ds) = Inl e \<Longrightarrow>
   snd (fetchWeather_upstream b key cache now up ds) = b\<lparr>fetches := fetches b + 1\<rparr>"
  by (auto simp: fetchWeather_upstream_def Let_def split: upstream.splits option.splits if_splits)




text \<open>
  Claim C8. When the cache has no fresh entry and the request fails, because the
  provider cannot be reached, because the response is not ok, or because the day
  picked has an empty hourly series, \<open>fetchWeather\<close> returns the error and a browser
  that differs from the one before only in the count of requests. More generally,
  whenever \<open>fetchWeather\<close> returns an error, the localStorage item, and so every
  entry of the cache, is what it was before the call.
\<close>

theorem fetchWeather_failure_keeps_cache:
  "(\<not> fresh b (cacheKey la lo ds) now \<longrightarrow>
      fetchWeather b la lo now Unreachable ds = (Inl NetworkFailure, b\<lparr>fetches := fetches b + 1\<rparr>)
      \<and> fetchWeather b la lo now (Answer False body) ds
          = (Inl FailedToFetchWeather, b\<lparr>fetches := fetches b + 1\<rparr>)
      \<and> (pick_day ds days = Some day \<and> wd_hourly day = [] \<longrightarrow>
           fetchWeather b la lo now (Answer True (Some days)) ds
             = (Inl NoHourlyData, b\<lparr>fetches := fetches b + 1\<rparr>)))
   \<and> storage (b\<lparr>fetches := fetches b + 1\<rparr>) = storage b
   \<and> (\<forall>e. fst (fetchWeather b la lo now up ds) = Inl e \<longrightarrow>
         storage (snd (fetchWeather b la lo now up ds)) = storage b
         \<and> read_cache (storage (snd (fetchWeather b la lo now up ds))) = read_cache (storage b))"
proof -
  have A: "fetchWeather b la lo now Unreachable ds = (Inl NetworkFailure, b\<lparr>fetches := fetches b + 1\<rparr>)
      \<and> fetchWeather b la lo now (Answer False body) ds
          = (Inl FailedToFetchWeather, b\<lparr>fetches := fetches b + 1\<rparr>)
      \<and> (pick_day ds days = Some day \<and> wd_hourly day = [] \<longrightarrow>
           fetchWeather b la lo now (Answer True (Some days)) ds
             = (Inl NoHourlyData, b\<lparr>fetches := fetches b + 1\<rparr>))"
    if nf: "\<not> fresh b (cacheKey la lo ds) now"
    unfolding fetchWeather_miss [OF nf] by (simp add: fetchWeather_upstream_def)
  have B: "storage (snd (fetchWeather b la lo now up ds)) = storage b"
    if err: "fst (fetchWeather b la lo now up ds) = Inl e" for e
  proof (cases "fresh b (cacheKey la lo ds) now")
    case True
    then show ?thesis by (auto simp: fetchWeather_def split: option.splits)
  next
    case False
    show ?thesis
      using err unfolding fetchWeather_miss [OF False] by (simp add: upstream_Inl)
  qed
  show ?thesis using A B by simp
qed

theorem fetchWeather_failure_keeps_cache_witness:
  "\<not> fresh \<lparr>storage = Cached [''17.385,78.4867,2024-01-01'' \<mapsto> \<lparr>data = sample_snapshot, timestamp = 1000\<rparr>],
              fetches = 3\<rparr>
        (cacheKey ''17.385'' ''78.4867'' ''2024-01-01'') 2000000
   \<and> pick_day ''2024-01-01'' [\<lparr>wd_date = ''2024-01-02'', wd_hourly = []\<rparr>]
       = Some \<lparr>wd_date = ''2024-01-02'', wd_hourly = []\<rparr>
   \<and> fetchWeather
        \<lparr>storage = Cached [''17.385,78.4867,2024-01-01'' \<mapsto> \<lparr>data = sample_snapshot, timestamp = 1000\<rparr>],
         fetches = 3\<rparr>
        ''17.385'' ''78.4867'' 2000000
        (Answer True (Some [\<lparr>wd_date = ''2024-01-02'', wd_hourly = []\<rparr>])) ''2024-01-01''
       = (Inl NoHourlyData,
          \<lparr>storage = Cached [''17.385,78.4867,2024-01-01'' \<mapsto> \<lparr>data = sample_snapshot, timestamp = 1000\<rparr>],
           fetches = 4\<rparr>)
   \<and> fetchWeather
        \<lparr>storage = Cached [''17.385,78.4867,2024-01-01'' \<mapsto> \<lparr>data = sample_snapshot, timestamp = 1000\<rparr>],
         fetches = 3\<rparr>
        ''17.385'' ''78.4867'' 2000000 Unreachable ''2024-01-01''
       = (Inl NetworkFailure,
          \<lparr>storage = Cached [''17.385,78.4867,2024-01-01'' \<mapsto> \<lparr>data = sample_snapshot, timestamp = 1000\<rparr>],
           fetches = 4\<rparr>)
   \<and> fetchWeather
        \<lparr>storage = Cached [''17.385,78.4867,2024-01-01'' \<mapsto> \<lparr>data = sample_snapshot, timestamp = 1000\<rparr>],
         fetches = 3\<rparr>
        ''17.385'' ''78.4867'' 2000000 (Answer False None) ''2024-01-01''
       = (Inl FailedToFetchWeather,
          \<lparr>storage = Cached [''17.385,78.4867,2024-01-01'' \<mapsto> \<lparr>data = sample_snapshot, timestamp = 1000\<rparr>],
           fetches = 4\<rparr>)"
  using fetchWeather_failure_keeps_cache
    [where b = "\<lparr>storage = Cached [''17.385,78.4867,2024-01-01'' \<mapsto> \<lparr>data = sample_snapshot, timestamp = 1000\<rparr>],
                 fetches = 3\<rparr>"
       and la = "''17.385''" and lo = "''78.4867''" and ds = "''2024-01-01''" and now = 2000000
       and body = None and days = "[\<lparr>wd_date = ''2024-01-02'', wd_hourly = []\<rparr>]"
       and day = "\<lparr>wd_date = ''2024-01-02'', wd_hourly = []\<rparr>" and up = Unreachable]
  by (simp add: read_cache_def cacheKey_def pick_day_def)

section \<open>Properties of the reduction of the hourly series\<close>









end
